theory Spec2Isabelle
  imports
    Main
    "HOL-Library.Word"
    "HOL-Library.Char_ord"
    "HOL-Library.List_Lexorder"
    "HOL-Library.Multiset"
begin

unbundle bit_operations_syntax

section \<open>Go values used by the client package\<close>

text \<open>
  A Go \<open>string\<close> is a sequence of bytes: it is modelled by \<^typ>\<open>string\<close>, whose
  characters are the 256 byte values. A \<open>[]byte\<close> is a list of 8-bit words, and the
  conversion \<open>[]byte(s)\<close> keeps every byte.
\<close>

type_synonym byte = "8 word"
type_synonym u32 = "32 word"

abbreviation LF :: char where
  "LF \<equiv> CHR 0x0A"

abbreviation DQ :: char where
  "DQ \<equiv> CHR 0x22"

definition bytes_of :: "string \<Rightarrow> byte list" where
  "bytes_of s = map of_char s"

text \<open>
  A Go \<open>map[K]V\<close> is modelled by the list of its entries in the order in which a
  \<open>range\<close> loop happens to visit them. The keys of a map are distinct
  (\<open>wf_map\<close>); Go fixes no order, so two lists with the same entries stand for the
  same map (\<open>same_map\<close>). Indexing a map with a key it does not hold gives the zero
  value of the element type, also when the map is \<open>nil\<close>.
\<close>

type_synonym ('k, 'v) gomap = "('k \<times> 'v) list"

definition wf_map :: "('k, 'v) gomap \<Rightarrow> bool" where
  "wf_map m = distinct (map fst m)"

definition same_map :: "('k, 'v) gomap \<Rightarrow> ('k, 'v) gomap \<Rightarrow> bool" where
  "same_map m m' = (wf_map m \<and> wf_map m' \<and> set m = set m')"

definition map_get :: "('k, 'v) gomap \<Rightarrow> 'k \<Rightarrow> 'v \<Rightarrow> 'v" where
  "map_get m k zero = (case map_of m k of None \<Rightarrow> zero | Some v \<Rightarrow> v)"

section \<open>Standard library functions called by the client\<close>

subsection \<open>strings.ToLower, strings.Join, sort.Strings\<close>

text \<open>
  \<open>strings.ToLower\<close> scans the bytes of its argument. A string of ASCII bytes only
  is returned as it is when it has no upper-case letter, and with \<open>'a' - 'A'\<close> added
  to each byte in \<open>'A'..'Z'\<close> otherwise. Any other string goes through
  \<open>strings.Map(unicode.ToLower, s)\<close>, which depends on the Unicode case tables of the
  Go distribution: that path is the parameter \<open>uni\<close> of the model.
\<close>

definition isASCII :: "string \<Rightarrow> bool" where
  "isASCII s = list_all (\<lambda>c. (of_char c :: nat) < 0x80) s"

definition isUpper :: "char \<Rightarrow> bool" where
  "isUpper c = (CHR ''A'' \<le> c \<and> c \<le> CHR ''Z'')"

definition lower_byte :: "char \<Rightarrow> char" where
  "lower_byte c = (if isUpper c then char_of ((of_char c :: nat) + 32) else c)"

definition ToLower :: "(string \<Rightarrow> string) \<Rightarrow> string \<Rightarrow> string" where
  "ToLower uni s =
     (if isASCII s then (if list_ex isUpper s then map lower_byte s else s)
      else uni s)"

fun Join :: "string list \<Rightarrow> string \<Rightarrow> string" where
  "Join [] sep = []"
| "Join [e] sep = e"
| "Join (e # es) sep = e @ sep @ Join es sep"

text \<open>
  \<open>sort.Strings\<close> sorts in increasing order of Go's \<open><\<close> on strings, the
  lexicographic order of the bytes. The order of \<^typ>\<open>string\<close> used here is that
  order (bytes compared by their value, a proper prefix before its extensions). The
  library's algorithm is not stable, which cannot be seen on strings: a sorted list is
  determined by its elements (\<open>sort_Strings_unique\<close> below).
\<close>

definition sort_Strings :: "string list \<Rightarrow> string list" where
  "sort_Strings xs = sort xs"

subsection \<open>encoding/hex and encoding/base64\<close>

definition hextable :: string where
  "hextable = ''0123456789abcdef''"

definition EncodeToString :: "byte list \<Rightarrow> string" where
  "EncodeToString src =
     concat (map (\<lambda>v. [hextable ! unat (drop_bit 4 v), hextable ! unat (v AND 0x0f)]) src)"

definition encodeStd :: string where
  "encodeStd = ''ABCDEFGHIJKLMNOPQRSTUVWXYZabcdefghijklmnopqrstuvwxyz0123456789+/''"

definition sextet :: "u32 \<Rightarrow> nat \<Rightarrow> char" where
  "sextet val n = encodeStd ! unat (drop_bit n val AND 0x3F)"

fun StdEncoding_EncodeToString :: "byte list \<Rightarrow> string" where
  "StdEncoding_EncodeToString (a # b # c # rest) =
     (let val = push_bit 16 (ucast a) OR push_bit 8 (ucast b) OR ucast c
      in [sextet val 18, sextet val 12, sextet val 6, sextet val 0]
         @ StdEncoding_EncodeToString rest)"
| "StdEncoding_EncodeToString [a, b] =
     (let val = push_bit 16 (ucast a) OR push_bit 8 (ucast b)
      in [sextet val 18, sextet val 12, sextet val 6, CHR ''=''])"
| "StdEncoding_EncodeToString [a] =
     (let val = push_bit 16 (ucast a)
      in [sextet val 18, sextet val 12, CHR ''='', CHR ''=''])"
| "StdEncoding_EncodeToString [] = []"

subsection \<open>net/url: QueryEscape and Values.Encode\<close>

text \<open>
  \<open>url.Values\<close> is \<open>map[string][]string\<close>. \<open>QueryEscape\<close> keeps the unreserved
  bytes (letters, digits, \<open>-\<close>, \<open>_\<close>, \<open>.\<close>, \<open>~\<close>), writes a space as \<open>+\<close> and
  every other byte as \<open>%XX\<close> with upper-case hexadecimal digits. \<open>Encode\<close> returns
  the empty string for a map without keys (a \<open>nil\<close> map too); otherwise it visits
  the keys in sorted order and, for every value of a key, writes \<open>key=value\<close>,
  preceded by \<open>&\<close> when the buffer is not empty.
\<close>

type_synonym Values = "(string, string list) gomap"

definition shouldEscape :: "char \<Rightarrow> bool" where
  "shouldEscape c =
     (if (CHR ''a'' \<le> c \<and> c \<le> CHR ''z'') \<or> (CHR ''A'' \<le> c \<and> c \<le> CHR ''Z'')
          \<or> (CHR ''0'' \<le> c \<and> c \<le> CHR ''9'') then False
      else if c \<in> set ''-_.~'' then False
      else True)"

definition upperhex :: string where
  "upperhex = ''0123456789ABCDEF''"

definition escape_byte :: "char \<Rightarrow> string" where
  "escape_byte c =
     (if c = CHR '' '' then ''+''
      else if shouldEscape c
        then [CHR ''%'', upperhex ! ((of_char c :: nat) div 16), upperhex ! ((of_char c :: nat) mod 16)]
      else [c])"

definition QueryEscape :: "string \<Rightarrow> string" where
  "QueryEscape s = concat (map escape_byte s)"

fun encode_vs :: "string \<Rightarrow> string list \<Rightarrow> string \<Rightarrow> string" where
  "encode_vs keyEscaped [] buf = buf"
| "encode_vs keyEscaped (v # vs) buf =
     encode_vs keyEscaped vs
       ((if length buf > 0 then buf @ ''&'' else buf) @ keyEscaped @ ''='' @ QueryEscape v)"

fun encode_keys :: "Values \<Rightarrow> string list \<Rightarrow> string \<Rightarrow> string" where
  "encode_keys v [] buf = buf"
| "encode_keys v (k # keys) buf =
     encode_keys v keys (encode_vs (QueryEscape k) (map_get v k []) buf)"

definition Encode :: "Values option \<Rightarrow> string" where
  "Encode q =
     (case q of
        None \<Rightarrow> []
      | Some v \<Rightarrow> if length v = 0 then [] else encode_keys v (sort_Strings (map fst v)) [])"

subsection \<open>crypto/md5, crypto/sha256 and crypto/hmac\<close>

text \<open>
  The digests are the functions of RFC 1321, FIPS 180-4 and RFC 2104 on byte lists,
  over 32-bit words with wrap-around addition. A message is padded with the byte
  \<open>0x80\<close>, zero bytes up to 56 modulo 64, and its length in bits as a 64-bit
  number (little-endian for MD5, big-endian for SHA-256), then consumed in blocks of 64
  bytes.
\<close>

fun chunks :: "nat \<Rightarrow> 'a list \<Rightarrow> 'a list list" where
  "chunks n xs = (if n = 0 \<or> xs = [] then [] else take n xs # chunks n (drop n xs))"

declare chunks.simps [simp del]

definition pad_zeros :: "byte list \<Rightarrow> byte list" where
  "pad_zeros m = m @ [0x80] @ replicate ((119 - length m mod 64) mod 64) 0"

definition bit_length :: "byte list \<Rightarrow> 64 word" where
  "bit_length m = 8 * of_nat (length m)"

definition le_bytes :: "nat \<Rightarrow> 'a::len word \<Rightarrow> byte list" where
  "le_bytes n v = map (\<lambda>i. ucast (drop_bit (8 * i) v)) [0..<n]"

definition be_bytes :: "nat \<Rightarrow> 'a::len word \<Rightarrow> byte list" where
  "be_bytes n v = rev (le_bytes n v)"

definition le_word :: "byte list \<Rightarrow> u32" where
  "le_word bs = foldr (\<lambda>b w. ucast b OR push_bit 8 w) bs 0"

definition be_word :: "byte list \<Rightarrow> u32" where
  "be_word bs = le_word (rev bs)"

definition md5_K :: "u32 list" where
  "md5_K =
    [0xd76aa478, 0xe8c7b756, 0x242070db, 0xc1bdceee, 0xf57c0faf, 0x4787c62a, 0xa8304613, 0xfd469501,
     0x698098d8, 0x8b44f7af, 0xffff5bb1, 0x895cd7be, 0x6b901122, 0xfd987193, 0xa679438e, 0x49b40821,
     0xf61e2562, 0xc040b340, 0x265e5a51, 0xe9b6c7aa, 0xd62f105d, 0x02441453, 0xd8a1e681, 0xe7d3fbc8,
     0x21e1cde6, 0xc33707d6, 0xf4d50d87, 0x455a14ed, 0xa9e3e905, 0xfcefa3f8, 0x676f02d9, 0x8d2a4c8a,
     0xfffa3942, 0x8771f681, 0x6d9d6122, 0xfde5380c, 0xa4beea44, 0x4bdecfa9, 0xf6bb4b60, 0xbebfbc70,
     0x289b7ec6, 0xeaa127fa, 0xd4ef3085, 0x04881d05, 0xd9d4d039, 0xe6db99e5, 0x1fa27cf8, 0xc4ac5665,
     0xf4292244, 0x432aff97, 0xab9423a7, 0xfc93a039, 0x655b59c3, 0x8f0ccc92, 0xffeff47d, 0x85845dd1,
     0x6fa87e4f, 0xfe2ce6e0, 0xa3014314, 0x4e0811a1, 0xf7537e82, 0xbd3af235, 0x2ad7d2bb, 0xeb86d391]"

definition md5_s :: "nat list" where
  "md5_s =
     concat (map (\<lambda>r. concat (replicate 4 r))
       [[7, 12, 17, 22], [5, 9, 14, 20], [4, 11, 16, 23], [6, 10, 15, 21]])"

type_synonym md5_state = "u32 \<times> u32 \<times> u32 \<times> u32"

definition md5_round :: "u32 list \<Rightarrow> md5_state \<Rightarrow> nat \<Rightarrow> md5_state" where
  "md5_round M st i =
     (case st of (A, B, C, D) \<Rightarrow>
        let (F, g) =
              (if i < 16 then ((B AND C) OR (NOT B AND D), i)
               else if i < 32 then ((D AND B) OR (NOT D AND C), (5 * i + 1) mod 16)
               else if i < 48 then (B XOR C XOR D, (3 * i + 5) mod 16)
               else (C XOR (B OR NOT D), (7 * i) mod 16));
            F' = F + A + md5_K ! i + M ! g
        in (D, B + word_rotl (md5_s ! i) F', B, C))"

definition md5_block :: "md5_state \<Rightarrow> byte list \<Rightarrow> md5_state" where
  "md5_block st blk =
     (case st of (a0, b0, c0, d0) \<Rightarrow>
        case foldl (md5_round (map le_word (chunks 4 blk))) st [0..<64] of
          (A, B, C, D) \<Rightarrow> (a0 + A, b0 + B, c0 + C, d0 + D))"

definition md5_Sum :: "byte list \<Rightarrow> byte list" where
  "md5_Sum m =
     (case foldl md5_block (0x67452301, 0xefcdab89, 0x98badcfe, 0x10325476)
             (chunks 64 (pad_zeros m @ le_bytes 8 (bit_length m))) of
        (a, b, c, d) \<Rightarrow> concat (map (le_bytes 4) [a, b, c, d]))"

definition sha256_K :: "u32 list" where
  "sha256_K =
     concat
      [
      [0x428a2f98, 0x71374491, 0xb5c0fbcf, 0xe9b5dba5],
      [0x3956c25b, 0x59f111f1, 0x923f82a4, 0xab1c5ed5],
      [0xd807aa98, 0x12835b01, 0x243185be, 0x550c7dc3],
      [0x72be5d74, 0x80deb1fe, 0x9bdc06a7, 0xc19bf174],
      [0xe49b69c1, 0xefbe4786, 0x0fc19dc6, 0x240ca1cc],
      [0x2de92c6f, 0x4a7484aa, 0x5cb0a9dc, 0x76f988da],
      [0x983e5152, 0xa831c66d, 0xb00327c8, 0xbf597fc7],
      [0xc6e00bf3, 0xd5a79147, 0x06ca6351, 0x14292967],
      [0x27b70a85, 0x2e1b2138, 0x4d2c6dfc, 0x53380d13],
      [0x650a7354, 0x766a0abb, 0x81c2c92e, 0x92722c85],
      [0xa2bfe8a1, 0xa81a664b, 0xc24b8b70, 0xc76c51a3],
      [0xd192e819, 0xd6990624, 0xf40e3585, 0x106aa070],
      [0x19a4c116, 0x1e376c08, 0x2748774c, 0x34b0bcb5],
      [0x391c0cb3, 0x4ed8aa4a, 0x5b9cca4f, 0x682e6ff3],
      [0x748f82ee, 0x78a5636f, 0x84c87814, 0x8cc70208],
      [0x90befffa, 0xa4506ceb, 0xbef9a3f7, 0xc67178f2]
      ]"

definition sha256_H0 :: "u32 list" where
  "sha256_H0 =
    [0x6a09e667, 0xbb67ae85, 0x3c6ef372, 0xa54ff53a, 0x510e527f, 0x9b05688c, 0x1f83d9ab, 0x5be0cd19]"

definition sha256_extend :: "u32 list \<Rightarrow> nat \<Rightarrow> u32 list" where
  "sha256_extend w i =
     (let s0 = word_rotr 7 (w ! (i - 15)) XOR word_rotr 18 (w ! (i - 15)) XOR drop_bit 3 (w ! (i - 15));
          s1 = word_rotr 17 (w ! (i - 2)) XOR word_rotr 19 (w ! (i - 2)) XOR drop_bit 10 (w ! (i - 2))
      in w @ [w ! (i - 16) + s0 + w ! (i - 7) + s1])"

definition sha256_round :: "u32 list \<Rightarrow> u32 list \<Rightarrow> nat \<Rightarrow> u32 list" where
  "sha256_round w st i =
     (case st of
        [a, b, c, d, e, f, g, h] \<Rightarrow>
          let S1 = word_rotr 6 e XOR word_rotr 11 e XOR word_rotr 25 e;
              ch = (e AND f) XOR (NOT e AND g);
              temp1 = h + S1 + ch + sha256_K ! i + w ! i;
              S0 = word_rotr 2 a XOR word_rotr 13 a XOR word_rotr 22 a;
              maj = (a AND b) XOR (a AND c) XOR (b AND c);
              temp2 = S0 + maj
          in [temp1 + temp2, a, b, c, d + temp1, e, f, g]
      | _ \<Rightarrow> st)"

definition sha256_block :: "u32 list \<Rightarrow> byte list \<Rightarrow> u32 list" where
  "sha256_block st blk =
     (let w = foldl sha256_extend (map be_word (chunks 4 blk)) [16..<64]
      in map2 (+) st (foldl (sha256_round w) st [0..<64]))"

definition sha256_Sum :: "byte list \<Rightarrow> byte list" where
  "sha256_Sum m =
     concat (map (be_bytes 4)
       (foldl sha256_block sha256_H0 (chunks 64 (pad_zeros m @ be_bytes 8 (bit_length m)))))"

definition hmac_sha256 :: "byte list \<Rightarrow> byte list \<Rightarrow> byte list" where
  "hmac_sha256 key m =
     (let k = (if length key > 64 then sha256_Sum key else key);
          k' = k @ replicate (64 - length k) 0
      in sha256_Sum (map (\<lambda>b. b XOR 0x5c) k' @ sha256_Sum (map (\<lambda>b. b XOR 0x36) k' @ m)))"

section \<open>The client package\<close>

text \<open>
  \<open>Client\<close> embeds the transport and the \<open>Option\<close> struct, whose fields \<open>Url\<close>,
  \<open>Key\<close> and \<open>Secret\<close> it promotes; the transport is a parameter of \<open>Send\<close>. A
  request holds a pointer to its client: the model takes it as set, as \<open>R\<close> sets it.
  \<open>Query\<close> and \<open>Body\<close> are \<open>nil\<close> (\<open>None\<close>) until \<open>SetQuery\<close> and
  \<open>SetData\<close> assign them; a map or slice that is not \<open>nil\<close> may still be empty.
\<close>

record Client =
  Url :: string
  Key :: string
  Secret :: string

record OpenAPI =
  Client :: Client
  Method :: string
  Path :: string
  Header :: "(string, string) gomap"
  Query :: "Values option"
  Body :: "byte list option"

text \<open>
  \<open>R\<close> creates a request with the three default headers; \<open>now\<close> is
  \<open>time.Now().UTC().Format(http.TimeFormat)\<close>, read from the clock at that moment.
\<close>

definition R :: "Client \<Rightarrow> string \<Rightarrow> string \<Rightarrow> string \<Rightarrow> OpenAPI" where
  "R x now method path =
     \<lparr>Client = x, Method = method, Path = path,
      Header = [(''accept'', ''application/json''), (''source'', ''apigw test''), (''x-date'', now)],
      Query = None, Body = None\<rparr>"

definition SetQuery :: "Values \<Rightarrow> OpenAPI \<Rightarrow> OpenAPI" where
  "SetQuery v x = x\<lparr>Query := Some v\<rparr>"

text \<open>
  \<open>SetData\<close> assigns the first result of \<open>sonic.Marshal\<close> to \<open>Body\<close> and drops the
  second, the error. The encoder is the parameter \<open>Marshal\<close>, returning both results
  as Go does: the bytes (\<open>None\<close> for a \<open>nil\<close> slice) and the error (\<open>None\<close> for
  \<open>nil\<close>).
\<close>

definition SetData :: "('v \<Rightarrow> byte list option \<times> 'e option) \<Rightarrow> 'v \<Rightarrow> OpenAPI \<Rightarrow> OpenAPI" where
  "SetData Marshal v x = x\<lparr>Body := fst (Marshal v)\<rparr>"

subsection \<open>SetAuthorization\<close>

text \<open>The first loop: the lower-cased names of the headers other than \<open>Accept\<close>.\<close>

fun collect_headers :: "(string \<Rightarrow> string) \<Rightarrow> (string, string) gomap \<Rightarrow> string list \<Rightarrow> string list" where
  "collect_headers uni [] headers = headers"
| "collect_headers uni ((k, _) # rest) headers =
     (if k = ''Accept'' then collect_headers uni rest headers
      else collect_headers uni rest (headers @ [ToLower uni k]))"

text \<open>The second loop: one line per sorted name, written to the string builder.\<close>

fun write_headers :: "(string, string) gomap \<Rightarrow> string list \<Rightarrow> string \<Rightarrow> string" where
  "write_headers hdr [] sb = sb"
| "write_headers hdr (v # vs) sb =
     write_headers hdr vs (sb @ v @ '': '' @ map_get hdr v [] @ [LF])"

definition headers :: "(string \<Rightarrow> string) \<Rightarrow> OpenAPI \<Rightarrow> string list" where
  "headers uni x = sort_Strings (collect_headers uni (Header x) [])"

definition headersKVString :: "(string \<Rightarrow> string) \<Rightarrow> OpenAPI \<Rightarrow> string" where
  "headersKVString uni x = write_headers (Header x) (headers uni x) []"

definition accept :: string where
  "accept = ''application/json''"

definition contextMd5 :: "OpenAPI \<Rightarrow> string" where
  "contextMd5 x = (case Body x of None \<Rightarrow> [] | Some b \<Rightarrow> EncodeToString (md5_Sum b))"

definition pathAndParameters :: "OpenAPI \<Rightarrow> string" where
  "pathAndParameters x =
     (case Query x of None \<Rightarrow> Path x | Some q \<Rightarrow> Path x @ ''?'' @ Encode (Some q))"

definition signToString :: "(string \<Rightarrow> string) \<Rightarrow> OpenAPI \<Rightarrow> string" where
  "signToString uni x =
     headersKVString uni x @ Method x @ [LF] @ accept @ [LF, LF] @ contextMd5 x @ [LF]
       @ pathAndParameters x"

definition signature :: "(string \<Rightarrow> string) \<Rightarrow> OpenAPI \<Rightarrow> string" where
  "signature uni x =
     StdEncoding_EncodeToString
       (hmac_sha256 (bytes_of (Secret (Client x))) (bytes_of (signToString uni x)))"

definition SetAuthorization :: "(string \<Rightarrow> string) \<Rightarrow> OpenAPI \<Rightarrow> string" where
  "SetAuthorization uni x =
     ''hmac id='' @ [DQ] @ Key (Client x) @ [DQ] @ '', algorithm='' @ [DQ] @ ''hmac-sha256'' @ [DQ]
       @ '', headers='' @ [DQ] @ Join (headers uni x) '' '' @ [DQ]
       @ '', signature='' @ [DQ] @ signature uni x @ [DQ]"

subsection \<open>Send and Ping\<close>

text \<open>
  The request handed to the transport: \<open>Send\<close> sets its method, its URI and its
  headers, and nothing else; the body of the descriptor is not copied. The header store
  keeps one value per name, and \<open>SetHeaders\<close> stores every entry of the map.
  \<open>Do\<close> is the transport, returning the response and the error of the call. The
  transport's normalisation of header names is outside the repository and is not part
  of the model.
\<close>

record Request =
  req_Method :: string
  req_RequestURI :: string
  req_Header :: "string \<rightharpoonup> string"
  req_Body :: "byte list option"

definition new_Request :: Request where
  "new_Request = \<lparr>req_Method = [], req_RequestURI = [], req_Header = Map.empty, req_Body = None\<rparr>"

definition SetHeader :: "string \<Rightarrow> string \<Rightarrow> Request \<Rightarrow> Request" where
  "SetHeader k v req = req\<lparr>req_Header := (req_Header req)(k \<mapsto> v)\<rparr>"

fun SetHeaders :: "(string, string) gomap \<Rightarrow> Request \<Rightarrow> Request" where
  "SetHeaders [] req = req"
| "SetHeaders ((k, v) # rest) req = SetHeaders rest (SetHeader k v req)"

definition request_of :: "(string \<Rightarrow> string) \<Rightarrow> OpenAPI \<Rightarrow> Request" where
  "request_of uni x =
     (let req = new_Request\<lparr>req_Method := Method x\<rparr>;
          u = Url (Client x) @ Path x @ ''?'' @ Encode (Query x);
          req = req\<lparr>req_RequestURI := u\<rparr>;
          req = SetHeaders (Header x) req
      in if Key (Client x) \<noteq> [] \<and> Secret (Client x) \<noteq> []
         then SetHeader ''Authorization'' (SetAuthorization uni x) req
         else req)"

definition Send :: "(Request \<Rightarrow> 'resp \<times> 'e option) \<Rightarrow> (string \<Rightarrow> string) \<Rightarrow> OpenAPI \<Rightarrow> 'resp \<times> 'e option" where
  "Send Do uni x = Do (request_of uni x)"

text \<open>
  \<open>Ping\<close> sends \<open>GET /\<close> with no query and decodes the body of the response
  into a map it has just made. It returns the map and the error, both results as Go
  does: no map when \<open>Send\<close> fails, the map together with the error when the
  decoding fails. \<open>Unmarshal\<close> stands for \<open>sonic.Unmarshal\<close> on the body of
  the response: it gives the map after decoding and the error.
\<close>

definition Ping :: "(Request \<Rightarrow> 'resp \<times> 'e option) \<Rightarrow> ('resp \<Rightarrow> 'm \<times> 'e option) \<Rightarrow> (string \<Rightarrow> string) \<Rightarrow> Client \<Rightarrow> string \<Rightarrow> 'm option \<times> 'e option" where
  "Ping Do Unmarshal uni x now =
     (case Send Do uni (R x now ''GET'' ''/'') of
        (resp, Some err) \<Rightarrow> (None, Some err)
      | (resp, None) \<Rightarrow> (case Unmarshal resp of (result, err) \<Rightarrow> (Some result, err)))"

subsection \<open>The request line written by the transport\<close>

text \<open>
  The transport does not send the string given to \<open>SetRequestURI\<close> as it is. It
  splits it into scheme, host, path, query string and fragment, and writes the request
  line from the parts: the path and, only when the query string is not empty, a question
  mark and the query string. \<open>splitHostURI\<close> drops the scheme and the host: the URI
  proper starts at the first slash after the first \<open>//\<close> (at the question mark, or
  is \<open>/\<close>, when there is no such slash). \<open>RequestURI\<close> cuts the fragment off,
  takes the path up to the first question mark and the query string after it, and puts
  a slash before a path that does not start with one. The rest of the transport's path
  normalisation (dot segments, doubled slashes, percent-quoting) leaves the paths of
  this client as they are and is not modelled.
\<close>

fun find_slashes :: "string \<Rightarrow> string \<Rightarrow> (string \<times> string) option" where
  "find_slashes scheme (a # b # rest) =
     (if a = CHR ''/'' \<and> b = CHR ''/'' then Some (scheme, rest)
      else find_slashes (scheme @ [a]) (b # rest))"
| "find_slashes scheme rest = None"

definition splitHostURI :: "string \<Rightarrow> string" where
  "splitHostURI uri =
     (case find_slashes [] uri of
        None \<Rightarrow> uri
      | Some (scheme, rest) \<Rightarrow>
          if CHR ''/'' \<in> set scheme then uri
          else if dropWhile (\<lambda>c. c \<noteq> CHR ''/'') rest \<noteq> []
            then dropWhile (\<lambda>c. c \<noteq> CHR ''/'') rest
          else if dropWhile (\<lambda>c. c \<noteq> CHR ''?'') rest \<noteq> []
            then dropWhile (\<lambda>c. c \<noteq> CHR ''?'') rest
          else ''/'')"

definition RequestURI :: "string \<Rightarrow> string" where
  "RequestURI requestURI =
     (let b = takeWhile (\<lambda>c. c \<noteq> CHR ''#'') (splitHostURI requestURI);
          pathOriginal = takeWhile (\<lambda>c. c \<noteq> CHR ''?'') b;
          queryString = drop 1 (dropWhile (\<lambda>c. c \<noteq> CHR ''?'') b);
          path = (if pathOriginal = [] \<or> hd pathOriginal \<noteq> CHR ''/''
                  then ''/'' @ pathOriginal else pathOriginal)
      in if length queryString > 0 then path @ ''?'' @ queryString else path)"

text \<open>
  What goes out for a request descriptor: the request line's target, and the body, which
  is the body of the request that \<open>Send\<close> built.
\<close>

definition transmitted_target :: "(string \<Rightarrow> string) \<Rightarrow> OpenAPI \<Rightarrow> string" where
  "transmitted_target uni x = RequestURI (req_RequestURI (request_of uni x))"

definition transmitted_body :: "(string \<Rightarrow> string) \<Rightarrow> OpenAPI \<Rightarrow> byte list option" where
  "transmitted_body uni x = req_Body (request_of uni x)"

section \<open>The signing scheme as the specification words it\<close>

text \<open>
  The specification describes the canonical header block by steps: take the header
  names other than \<open>Accept\<close>, lower-case them, sort them, and write one line
  \<open>name: value\<close> per name, the value being read from the header map under the
  lower-cased name. It describes the query string as the escaped \<open>key=value\<close> pairs
  in the order of the sorted keys, joined by \<open>&\<close>. These definitions follow that
  wording; the theorems below compare them with the loops of the code.
\<close>

definition spec_header_names :: "(string \<Rightarrow> string) \<Rightarrow> (string, string) gomap \<Rightarrow> string list" where
  "spec_header_names uni hdr =
     sort (map (ToLower uni) (filter (\<lambda>k. k \<noteq> ''Accept'') (map fst hdr)))"

definition spec_header_line :: "(string, string) gomap \<Rightarrow> string \<Rightarrow> string" where
  "spec_header_line hdr name = name @ '': '' @ map_get hdr name [] @ [LF]"

definition spec_header_block :: "(string \<Rightarrow> string) \<Rightarrow> (string, string) gomap \<Rightarrow> string" where
  "spec_header_block uni hdr = concat (map (spec_header_line hdr) (spec_header_names uni hdr))"

definition spec_query_pairs :: "Values \<Rightarrow> string list" where
  "spec_query_pairs v =
     concat (map (\<lambda>k. map (\<lambda>val. QueryEscape k @ ''='' @ QueryEscape val) (map_get v k []))
       (sort (map fst v)))"

definition spec_query_string :: "Values \<Rightarrow> string" where
  "spec_query_string v = Join (spec_query_pairs v) ''&''"

text \<open>
  Two requests are the same request when their fields are equal, the maps being compared
  as maps: equal entries, whatever the order in which a loop visits them.
\<close>

definition same_query :: "Values option \<Rightarrow> Values option \<Rightarrow> bool" where
  "same_query q q' =
     (case q of
        None \<Rightarrow> q' = None
      | Some v \<Rightarrow> (case q' of None \<Rightarrow> False | Some v' \<Rightarrow> same_map v v'))"

definition same_request :: "OpenAPI \<Rightarrow> OpenAPI \<Rightarrow> bool" where
  "same_request x y =
     (Client x = Client y \<and> Method x = Method y \<and> Path x = Path y \<and> Body x = Body y
      \<and> same_map (Header x) (Header y) \<and> same_query (Query x) (Query y))"

section \<open>Example values\<close>

text \<open>
  A client with both credentials set, and a request whose header map stores one name in
  mixed case, the name \<open>Accept\<close>, and one name in lower case.
\<close>

definition ex_client :: Client where
  "ex_client = \<lparr>Url = ''https://api.example.com'', Key = ''k'', Secret = ''s''\<rparr>"

definition ex_request :: OpenAPI where
  "ex_request =
     \<lparr>Client = ex_client, Method = ''GET'', Path = ''/'',
      Header = [(''X-Date'', ''D''), (''Accept'', ''q''), (''host'', ''a'')],
      Query = None, Body = None\<rparr>"

text \<open>
  A request with a header in mixed case, the body \<open>{"a":1}\<close> and the query
  parameters \<open>b=2\<close> and \<open>a=1\<close>.
\<close>

definition ex_post :: OpenAPI where
  "ex_post =
     \<lparr>Client = ex_client, Method = ''POST'', Path = ''/ip'',
      Header = [(''Host'', ''a'')],
      Query = Some [(''b'', [''2'']), (''a'', [''1''])],
      Body = Some (bytes_of (''{'' @ [DQ] @ ''a'' @ [DQ] @ '':1}''))\<rparr>"

text \<open>
  An encoder that fails on \<open>0\<close> and succeeds on every other number, and one request
  written twice, with its two maps visited in different orders and an empty secret.
\<close>

definition ex_Marshal :: "nat \<Rightarrow> byte list option \<times> string option" where
  "ex_Marshal v = (if v = 0 then (None, Some ''unsupported value'') else (Some (bytes_of ''1''), None))"

definition ex_reordered :: OpenAPI where
  "ex_reordered =
     \<lparr>Client = ex_client\<lparr>Secret := []\<rparr>, Method = ''GET'', Path = ''/ip'',
      Header = [(''host'', ''a''), (''X-Date'', ''D''), (''Accept'', ''q'')],
      Query = Some [(''b'', [''2'']), (''a'', [''1''])], Body = None\<rparr>"

definition ex_ordered :: OpenAPI where
  "ex_ordered =
     \<lparr>Client = ex_client\<lparr>Secret := []\<rparr>, Method = ''GET'', Path = ''/ip'',
      Header = [(''Accept'', ''q''), (''X-Date'', ''D''), (''host'', ''a'')],
      Query = Some [(''a'', [''1'']), (''b'', [''2''])], Body = None\<rparr>"

section \<open>Properties of the library functions\<close>

text \<open>
  The order of strings, the encoders and the lower-casing on a few values, as the Go
  functions give them.
\<close>

lemma string_order_examples:
  "''B'' < ''a'' \<and> ''a'' < ''ab'' \<and> ''ab'' < ''b'' \<and> [CHR 0x7F] < [CHR 0x80] \<and> [] < ''a''"
  by simp

lemma StdEncoding_examples:
  "StdEncoding_EncodeToString (bytes_of ''hello'') = ''aGVsbG8=''
   \<and> StdEncoding_EncodeToString (bytes_of ''hell'') = ''aGVsbA==''
   \<and> StdEncoding_EncodeToString (bytes_of ''hello!'') = ''aGVsbG8h''"
  by code_simp

lemma QueryEscape_examples:
  "QueryEscape ''b b'' = ''b+b'' \<and> QueryEscape ''2/'' = ''2%2F'' \<and> QueryEscape ''~x-_.'' = ''~x-_.''
   \<and> Encode (Some [(''b b'', [''2/'', ''~x'']), (''a'', [''1''])]) = ''a=1&b+b=2%2F&b+b=~x''"
  by code_simp

lemma ToLower_examples:
  "ToLower uni ''X-Date'' = ''x-date'' \<and> ToLower uni ''accept'' = ''accept''
   \<and> ToLower uni ''Accept'' = ''accept'' \<and> ToLower uni ''[@Z`{'' = ''[@z`{''"
  by code_simp

lemma sort_Strings_unique:
  "sorted ys \<Longrightarrow> mset ys = mset xs \<Longrightarrow> ys = sort_Strings xs"
  unfolding sort_Strings_def by (simp add: properties_for_sort)

lemma sort_Strings_mset:
  "mset xs = mset ys \<Longrightarrow> sort_Strings xs = sort_Strings ys"
  by (metis sort_Strings_unique sort_Strings_def sorted_sort mset_sort)

lemma Join_Cons: "Join (p # ps) sep = p @ concat (map (\<lambda>q. sep @ q) ps)"
  by (induction ps arbitrary: p) simp_all

section \<open>The loops of the client against their closed forms\<close>

subsection \<open>The two loops of SetAuthorization\<close>

lemma collect_headers_eq:
  "collect_headers uni hdr acc =
     acc @ map (ToLower uni) (filter (\<lambda>k. k \<noteq> ''Accept'') (map fst hdr))"
  by (induction hdr arbitrary: acc) auto

lemma write_headers_eq:
  "write_headers hdr vs sb = sb @ concat (map (spec_header_line hdr) vs)"
  by (induction vs arbitrary: sb) (simp_all add: spec_header_line_def)

lemma headers_eq: "headers uni x = spec_header_names uni (Header x)"
  by (simp add: headers_def spec_header_names_def sort_Strings_def collect_headers_eq)

lemma headersKVString_eq: "headersKVString uni x = spec_header_block uni (Header x)"
  by (simp add: headersKVString_def spec_header_block_def write_headers_eq headers_eq)

subsection \<open>The loops of Encode\<close>

lemma encode_vs_nonempty:
  "buf \<noteq> [] \<Longrightarrow>
   encode_vs ke vs buf = buf @ concat (map (\<lambda>val. ''&'' @ ke @ ''='' @ QueryEscape val) vs)"
  by (induction vs arbitrary: buf) simp_all

lemma encode_vs_eq:
  "encode_vs ke vs buf =
     (if buf = [] then Join (map (\<lambda>val. ke @ ''='' @ QueryEscape val) vs) ''&''
      else buf @ concat (map (\<lambda>q. ''&'' @ q) (map (\<lambda>val. ke @ ''='' @ QueryEscape val) vs)))"
proof (cases vs)
  case Nil
  then show ?thesis by simp
next
  case (Cons v vs')
  show ?thesis
    by (simp add: Cons encode_vs_nonempty Join_Cons comp_def)
qed

lemma Join_append:
  "Join (ps @ qs) sep =
     (if ps = [] then Join qs sep else Join ps sep @ concat (map (\<lambda>q. sep @ q) qs))"
proof (cases ps)
  case Nil
  then show ?thesis by simp
next
  case (Cons p ps')
  then show ?thesis by (simp add: Join_Cons)
qed

lemma Join_eq_Nil: "\<forall>p \<in> set ps. p \<noteq> [] \<Longrightarrow> Join ps sep = [] \<longleftrightarrow> ps = []"
  by (cases ps) (simp_all add: Join_Cons)

lemma encode_keys_eq:
  "buf = Join done ''&'' \<Longrightarrow> \<forall>p \<in> set done. p \<noteq> [] \<Longrightarrow>
   encode_keys v ks buf =
     Join (done @ concat (map (\<lambda>k. map (\<lambda>val. QueryEscape k @ ''='' @ QueryEscape val) (map_get v k [])) ks)) ''&''"
proof (induction ks arbitrary: buf "done")
  case Nil
  then show ?case by simp
next
  case (Cons k ks)
  let ?ps = "map (\<lambda>val. QueryEscape k @ ''='' @ QueryEscape val) (map_get v k [])"
  have step: "encode_vs (QueryEscape k) (map_get v k []) buf = Join (done @ ?ps) ''&''"
    using Cons.prems by (simp add: encode_vs_eq Join_append Join_eq_Nil comp_def)
  have ne: "\<forall>p \<in> set (done @ ?ps). p \<noteq> []"
    using Cons.prems by auto
  show ?case
    using Cons.IH [OF step ne] by simp
qed

lemma Encode_eq: "Encode (Some v) = spec_query_string v"
proof (cases v)
  case Nil
  then show ?thesis
    by (simp add: Encode_def spec_query_string_def spec_query_pairs_def)
next
  case (Cons a v')
  have "encode_keys v (sort (map fst v)) [] = Join ([] @ spec_query_pairs v) ''&''"
    unfolding spec_query_pairs_def by (rule encode_keys_eq) simp_all
  then show ?thesis
    by (simp add: Encode_def spec_query_string_def sort_Strings_def Cons)
qed

subsection \<open>Maps that differ in the order of their entries\<close>

lemma same_map_mset: "same_map m m' \<Longrightarrow> mset m = mset m'"
proof -
  assume h: "same_map m m'"
  then have "distinct m" "distinct m'"
    by (simp_all add: same_map_def wf_map_def distinct_map)
  with h show ?thesis
    by (simp add: same_map_def set_eq_iff_mset_eq_distinct)
qed

lemma same_map_map_of: "same_map m m' \<Longrightarrow> map_of m = map_of m'"
  by (simp add: same_map_def wf_map_def map_of_inject_set)

lemma same_map_get: "same_map m m' \<Longrightarrow> map_get m k z = map_get m' k z"
  by (simp add: map_get_def same_map_map_of)

lemma same_map_keys: "same_map m m' \<Longrightarrow> mset (map fst m) = mset (map fst m')"
  by (drule same_map_mset) simp

lemma same_map_header_names:
  assumes "same_map m m'"
  shows "spec_header_names uni m = spec_header_names uni m'"
proof -
  have "mset (map (ToLower uni) (filter (\<lambda>k. k \<noteq> ''Accept'') (map fst m)))
      = mset (map (ToLower uni) (filter (\<lambda>k. k \<noteq> ''Accept'') (map fst m')))"
    using same_map_mset [OF assms] by simp
  then have "sort_Strings (map (ToLower uni) (filter (\<lambda>k. k \<noteq> ''Accept'') (map fst m)))
      = sort_Strings (map (ToLower uni) (filter (\<lambda>k. k \<noteq> ''Accept'') (map fst m')))"
    by (rule sort_Strings_mset)
  then show ?thesis
    by (simp add: spec_header_names_def sort_Strings_def)
qed

lemma same_map_header_block:
  assumes "same_map m m'"
  shows "spec_header_block uni m = spec_header_block uni m'"
proof -
  have "spec_header_line m = spec_header_line m'"
    by (rule ext) (simp add: spec_header_line_def same_map_get [OF assms])
  then show ?thesis
    by (simp add: spec_header_block_def same_map_header_names [OF assms])
qed

lemma same_map_query_string:
  assumes "same_map v v'"
  shows "spec_query_string v = spec_query_string v'"
proof -
  have "sort_Strings (map fst v) = sort_Strings (map fst v')"
    using same_map_keys [OF assms] by (rule sort_Strings_mset)
  moreover have "\<And>k. map_get v k [] = map_get v' k []"
    by (rule same_map_get [OF assms])
  ultimately show ?thesis
    by (simp add: spec_query_string_def spec_query_pairs_def sort_Strings_def)
qed

lemma same_query_pathAndParameters:
  assumes "Path x = Path y" and "same_query (Query x) (Query y)"
  shows "pathAndParameters x = pathAndParameters y"
  using assms
  by (auto simp: pathAndParameters_def same_query_def Encode_eq
           split: option.splits dest: same_map_query_string)

subsection \<open>Sizes of the digests and of their encodings\<close>

lemma length_le_bytes [simp]: "length (le_bytes n v) = n"
  by (simp add: le_bytes_def)

lemma length_be_bytes [simp]: "length (be_bytes n v) = n"
  by (simp add: be_bytes_def)

lemma length_concat_const:
  "(\<And>x. length (f x) = n) \<Longrightarrow> length (concat (map f xs)) = n * length xs"
  by (induction xs) simp_all

lemma length_md5_Sum: "length (md5_Sum m) = 16"
  by (simp add: md5_Sum_def split: prod.splits)

lemma length_sha256_round: "length (sha256_round w st i) = length st"
  by (simp add: sha256_round_def Let_def split: list.splits)

lemma length_foldl_sha256_round: "length (foldl (sha256_round w) st is) = length st"
  by (induction "is" arbitrary: st) (simp_all add: length_sha256_round)

lemma length_sha256_block: "length (sha256_block st blk) = length st"
  by (simp add: sha256_block_def Let_def length_foldl_sha256_round)

lemma length_foldl_sha256_block: "length (foldl sha256_block st blks) = length st"
  by (induction blks arbitrary: st) (simp_all add: length_sha256_block)

lemma length_sha256_Sum: "length (sha256_Sum m) = 32"
proof -
  have "length (sha256_Sum m) = 4 * length (foldl sha256_block sha256_H0
          (chunks 64 (pad_zeros m @ be_bytes 8 (bit_length m))))"
    unfolding sha256_Sum_def by (rule length_concat_const) simp
  then show ?thesis
    by (simp add: length_foldl_sha256_block sha256_H0_def)
qed

lemma length_hmac_sha256: "length (hmac_sha256 key m) = 32"
  by (simp add: hmac_sha256_def Let_def length_sha256_Sum)

lemma length_EncodeToString: "length (EncodeToString src) = 2 * length src"
  unfolding EncodeToString_def by (rule length_concat_const) simp

lemma length_StdEncoding_EncodeToString:
  "length (StdEncoding_EncodeToString src) = 4 * ((length src + 2) div 3)"
proof (induction src rule: StdEncoding_EncodeToString.induct)
  case (1 a b c rest)
  have "(length rest + 5) div 3 = Suc ((length rest + 2) div 3)"
    by arith
  with 1 show ?case
    by (simp add: Let_def add.commute)
qed (simp_all add: Let_def)

lemma length_signature: "length (signature uni x) = 44"
  by (simp add: signature_def length_StdEncoding_EncodeToString length_hmac_sha256)

lemma hextable_nth: "n < 16 \<Longrightarrow> hextable ! n \<in> set ''0123456789abcdef''"
proof -
  assume "n < 16"
  then have "n < length hextable" by (simp add: hextable_def)
  then have "hextable ! n \<in> set hextable" by (rule nth_mem)
  then show ?thesis by (simp only: hextable_def)
qed

lemma hi_nibble: "unat (drop_bit 4 (v :: byte)) < 16"
proof -
  have "unat v < 2 ^ LENGTH(8)"
    by (rule unsigned_less)
  then have "unat v div 16 < 16"
    by simp
  then show ?thesis
    by (simp add: unat_drop_bit_eq drop_bit_eq_div unat_div)
qed

lemma lo_nibble: "unat ((v :: byte) AND 0x0f) < 16"
proof -
  have "v AND 15 \<le> 15"
    by (rule word_and_le1)
  then have "unat (v AND 15) \<le> unat (15 :: byte)"
    by (simp only: word_le_nat_alt)
  then show ?thesis by simp
qed

lemma set_EncodeToString: "set (EncodeToString src) \<subseteq> set ''0123456789abcdef''"
  unfolding EncodeToString_def
  using hextable_nth [OF hi_nibble] hextable_nth [OF lo_nibble]
  by (induction src) simp_all

lemma spec_header_line_fun:
  "spec_header_line hdr = (\<lambda>name. name @ '': '' @ map_get hdr name [] @ [LF])"
  by (rule ext) (simp add: spec_header_line_def)

subsection \<open>The request built by Send\<close>

lemma req_Header_SetHeaders:
  "req_Header (SetHeaders hdr req) = req_Header req ++ map_of (rev hdr)"
proof (induction hdr arbitrary: req)
  case Nil
  then show ?case by simp
next
  case (Cons kv hdr)
  obtain k v where kv: "kv = (k, v)" by (cases kv)
  have "req_Header (SetHeaders (kv # hdr) req) = req_Header (SetHeader k v req) ++ map_of (rev hdr)"
    by (simp add: kv Cons.IH)
  also have "\<dots> = (req_Header req)(k \<mapsto> v) ++ map_of (rev hdr)"
    by (simp add: SetHeader_def)
  also have "\<dots> = req_Header req ++ map_of (rev (kv # hdr))"
    by (rule ext) (simp add: kv map_add_def split: option.splits)
  finally show ?case .
qed

lemma req_Header_SetHeaders_other:
  "k \<notin> fst ` set hdr \<Longrightarrow> req_Header (SetHeaders hdr req) k = req_Header req k"
  by (simp add: req_Header_SetHeaders map_add_def map_of_eq_None_iff [THEN iffD2])

lemma req_RequestURI_SetHeaders [simp]:
  "req_RequestURI (SetHeaders hdr req) = req_RequestURI req"
  by (induction hdr arbitrary: req) (auto simp: SetHeader_def)

lemma req_Method_SetHeaders [simp]:
  "req_Method (SetHeaders hdr req) = req_Method req"
  by (induction hdr arbitrary: req) (auto simp: SetHeader_def)

lemma req_Body_SetHeaders [simp]:
  "req_Body (SetHeaders hdr req) = req_Body req"
  by (induction hdr arbitrary: req) (auto simp: SetHeader_def)

lemma req_RequestURI_request_of:
  "req_RequestURI (request_of uni x) = Url (Client x) @ Path x @ ''?'' @ Encode (Query x)"
  by (simp add: request_of_def Let_def SetHeader_def)

lemma req_Method_request_of: "req_Method (request_of uni x) = Method x"
  by (simp add: request_of_def Let_def SetHeader_def new_Request_def)

lemma req_Body_request_of: "req_Body (request_of uni x) = None"
  by (simp add: request_of_def Let_def SetHeader_def new_Request_def)

lemma req_Header_request_of:
  "req_Header (request_of uni x) =
     (if Key (Client x) \<noteq> [] \<and> Secret (Client x) \<noteq> []
      then (req_Header (SetHeaders (Header x) new_Request))(''Authorization'' \<mapsto> SetAuthorization uni x)
      else req_Header (SetHeaders (Header x) new_Request))"
proof -
  have "req_Header (SetHeaders hdr (new_Request\<lparr>req_Method := m, req_RequestURI := u\<rparr>))
        = req_Header (SetHeaders hdr new_Request)" for hdr m u
    by (simp add: req_Header_SetHeaders new_Request_def)
  then show ?thesis
    by (simp add: request_of_def Let_def SetHeader_def)
qed

subsection \<open>The request line written by the transport\<close>

lemma find_slashes_scheme:
  "CHR ''/'' \<notin> set s \<Longrightarrow> find_slashes pre (s @ ''//'' @ rest) = Some (pre @ s, rest)"
proof (induction s arbitrary: pre)
  case Nil
  then show ?case by simp
next
  case (Cons a s)
  then have a: "a \<noteq> CHR ''/''" and s: "CHR ''/'' \<notin> set s"
    by auto
  have "find_slashes pre ((a # s) @ ''//'' @ rest) = find_slashes (pre @ [a]) (s @ ''//'' @ rest)"
    using a by (cases s) simp_all
  also have "\<dots> = Some ((pre @ [a]) @ s, rest)"
    by (rule Cons.IH [OF s])
  finally show ?case by simp
qed

lemma dropWhile_skip:
  "c \<notin> set xs \<Longrightarrow> dropWhile (\<lambda>d. d \<noteq> c) (xs @ c # ys) = c # ys"
  by (induction xs) auto

lemma takeWhile_skip:
  "c \<notin> set xs \<Longrightarrow> takeWhile (\<lambda>d. d \<noteq> c) (xs @ c # ys) = xs"
  by (induction xs) auto

lemma takeWhile_all:
  "c \<notin> set xs \<Longrightarrow> takeWhile (\<lambda>d. d \<noteq> c) xs = xs"
  by (induction xs) auto

lemma RequestURI_of_parts:
  assumes "CHR ''/'' \<notin> set scheme" and "CHR ''/'' \<notin> set host"
    and "CHR ''?'' \<notin> set p" and "CHR ''#'' \<notin> set p" and "CHR ''#'' \<notin> set q"
  shows "RequestURI (scheme @ ''//'' @ host @ (CHR ''/'' # p) @ ''?'' @ q)
           = (CHR ''/'' # p) @ (if q = [] then [] else ''?'' @ q)"
proof -
  let ?path = "CHR ''/'' # p"
  let ?b = "?path @ CHR ''?'' # q"
  have uri: "scheme @ ''//'' @ host @ ?path @ ''?'' @ q = scheme @ ''//'' @ host @ ?b"
    by simp
  have "find_slashes [] (scheme @ ''//'' @ host @ ?b) = Some ([] @ scheme, host @ ?b)"
    using assms(1) by (rule find_slashes_scheme)
  moreover have "dropWhile (\<lambda>c. c \<noteq> CHR ''/'') (host @ ?b) = ?b"
    using dropWhile_skip [OF assms(2), of "p @ CHR ''?'' # q"] by simp
  ultimately have split: "splitHostURI (scheme @ ''//'' @ host @ ?b) = ?b"
    using assms(1) by (simp add: splitHostURI_def)
  have "CHR ''#'' \<notin> set ?b"
    using assms(4,5) by simp
  then have frag: "takeWhile (\<lambda>c. c \<noteq> CHR ''#'') ?b = ?b"
    by (rule takeWhile_all)
  have "CHR ''?'' \<notin> set ?path"
    using assms(3) by simp
  then have path: "takeWhile (\<lambda>c. c \<noteq> CHR ''?'') ?b = ?path"
    and query: "dropWhile (\<lambda>c. c \<noteq> CHR ''?'') ?b = CHR ''?'' # q"
    by (rule takeWhile_skip, rule dropWhile_skip)
  have "RequestURI (scheme @ ''//'' @ host @ ?b)
          = (if length q > 0 then ?path @ ''?'' @ q else ?path)"
    by (simp only: RequestURI_def Let_def split frag path query) simp
  then show ?thesis
    unfolding uri by simp
qed

lemma transmitted_body_None: "transmitted_body uni x = None"
  by (simp add: transmitted_body_def req_Body_request_of)

lemma Ping_transmits_signed_path:
  "transmitted_target uni (R ex_client now ''GET'' ''/'') = ''/''
   \<and> pathAndParameters (R ex_client now ''GET'' ''/'') = ''/''"
proof
  have "req_RequestURI (request_of uni (R ex_client now ''GET'' ''/'')) = ''https://api.example.com/?''"
    by (simp add: req_RequestURI_request_of R_def ex_client_def Encode_def)
  moreover have "RequestURI ''https://api.example.com/?'' = ''/''"
    by code_simp
  ultimately show "transmitted_target uni (R ex_client now ''GET'' ''/'') = ''/''"
    by (simp add: transmitted_target_def)
  show "pathAndParameters (R ex_client now ''GET'' ''/'') = ''/''"
    by (simp add: pathAndParameters_def R_def)
qed

lemma query_with_parameters_transmits_signed_path:
  "transmitted_target uni (SetQuery [(''value'', [''1.1.1.1''])] (R ex_client now ''GET'' ''/ip''))
     = ''/ip?value=1.1.1.1''
   \<and> pathAndParameters (SetQuery [(''value'', [''1.1.1.1''])] (R ex_client now ''GET'' ''/ip''))
     = ''/ip?value=1.1.1.1''"
proof
  have e: "Encode (Some [(''value'', [''1.1.1.1''])]) = ''value=1.1.1.1''"
    by code_simp
  have "req_RequestURI (request_of uni (SetQuery [(''value'', [''1.1.1.1''])] (R ex_client now ''GET'' ''/ip'')))
      = ''https://api.example.com/ip?value=1.1.1.1''"
    by (simp add: req_RequestURI_request_of R_def SetQuery_def ex_client_def e)
  moreover have "RequestURI ''https://api.example.com/ip?value=1.1.1.1'' = ''/ip?value=1.1.1.1''"
    by code_simp
  ultimately show "transmitted_target uni (SetQuery [(''value'', [''1.1.1.1''])] (R ex_client now ''GET'' ''/ip''))
     = ''/ip?value=1.1.1.1''"
    by (simp add: transmitted_target_def)
  show "pathAndParameters (SetQuery [(''value'', [''1.1.1.1''])] (R ex_client now ''GET'' ''/ip''))
     = ''/ip?value=1.1.1.1''"
    by (simp add: pathAndParameters_def R_def SetQuery_def e)
qed

section \<open>The Authorization value\<close>

text \<open>
  Claim C1. For every request and client identity, \<open>SetAuthorization\<close> returns exactly
  \<open>hmac id="<key>", algorithm="hmac-sha256", headers="<names>", signature="<sig>"\<close>,
  where the names are the lower-cased sorted header names joined by single spaces and the
  signature is the base64 encoding of HMAC-SHA256, keyed by the secret, of the signing
  string: the canonical header block, the method as given, a line feed, the fixed text
  \<open>application/json\<close>, two line feeds, the content MD5, a line feed, and the path
  with its parameters. The content MD5 is the hexadecimal MD5 digest of a body that is
  not \<open>nil\<close> and empty otherwise; the path with its parameters is the path, followed
  for a query that is not \<open>nil\<close> by a question mark and the escaped pairs in the order
  of the sorted keys, joined by \<open>&\<close>.
\<close>

theorem SetAuthorization_format:
  "SetAuthorization uni x =
     ''hmac id='' @ [DQ] @ Key (Client x) @ [DQ]
       @ '', algorithm='' @ [DQ] @ ''hmac-sha256'' @ [DQ]
       @ '', headers='' @ [DQ] @ Join (spec_header_names uni (Header x)) '' '' @ [DQ]
       @ '', signature='' @ [DQ]
       @ StdEncoding_EncodeToString
           (hmac_sha256 (bytes_of (Secret (Client x)))
              (bytes_of
                 (spec_header_block uni (Header x) @ Method x @ [LF] @ ''application/json''
                    @ [LF, LF]
                    @ (case Body x of None \<Rightarrow> [] | Some b \<Rightarrow> EncodeToString (md5_Sum b))
                    @ [LF]
                    @ (case Query x of
                         None \<Rightarrow> Path x
                       | Some v \<Rightarrow> Path x @ ''?'' @ Join (spec_query_pairs v) ''&''))))
       @ [DQ]"
proof -
  have md5: "contextMd5 x = (case Body x of None \<Rightarrow> [] | Some b \<Rightarrow> EncodeToString (md5_Sum b))"
    by (simp add: contextMd5_def)
  have path: "pathAndParameters x =
      (case Query x of None \<Rightarrow> Path x | Some v \<Rightarrow> Path x @ ''?'' @ Join (spec_query_pairs v) ''&'')"
    by (simp add: pathAndParameters_def Encode_eq spec_query_string_def split: option.splits)
  have "signToString uni x =
      spec_header_block uni (Header x) @ Method x @ [LF] @ ''application/json''
        @ [LF, LF]
        @ (case Body x of None \<Rightarrow> [] | Some b \<Rightarrow> EncodeToString (md5_Sum b))
        @ [LF]
        @ (case Query x of
             None \<Rightarrow> Path x
           | Some v \<Rightarrow> Path x @ ''?'' @ Join (spec_query_pairs v) ''&'')"
    unfolding signToString_def md5 path by (simp add: accept_def headersKVString_eq)
  then show ?thesis
    by (simp add: SetAuthorization_def signature_def headers_eq)
qed

text \<open>
  A request with the header \<open>Host: a\<close>, the body \<open>{"a":1}\<close> and the query
  \<open>b=2\<close>, \<open>a=1\<close>, signed with the secret \<open>s\<close>: the name is lower-cased and
  its value, looked up under \<open>host\<close>, is not found; the digest of the body and the
  sorted query are part of the signing string; the signature is the one HMAC-SHA256
  gives for that string.
\<close>

theorem SetAuthorization_format_witness:
  "signToString (\<lambda>s. s) ex_post =
     ''host: '' @ [LF] @ ''POST'' @ [LF] @ ''application/json'' @ [LF, LF]
       @ ''bb6cb5c68df4652941caf652a366f2d8'' @ [LF] @ ''/ip?a=1&b=2''
   \<and> SetAuthorization (\<lambda>s. s) ex_post =
     ''hmac id='' @ [DQ] @ ''k'' @ [DQ] @ '', algorithm='' @ [DQ] @ ''hmac-sha256'' @ [DQ]
       @ '', headers='' @ [DQ] @ ''host'' @ [DQ]
       @ '', signature='' @ [DQ] @ ''2dCmGH+T2sNGo+Moql1dDGfiFGg9vti4qxGC70hppQM='' @ [DQ]"
proof -
  have names: "spec_header_names (\<lambda>s. s) (Header ex_post) = [''host'']"
    by code_simp
  have sig: "StdEncoding_EncodeToString
           (hmac_sha256 (bytes_of (Secret (Client ex_post)))
              (bytes_of
                 (spec_header_block (\<lambda>s. s) (Header ex_post) @ Method ex_post @ [LF]
                    @ ''application/json'' @ [LF, LF]
                    @ (case Body ex_post of None \<Rightarrow> [] | Some b \<Rightarrow> EncodeToString (md5_Sum b))
                    @ [LF]
                    @ (case Query ex_post of
                         None \<Rightarrow> Path ex_post
                       | Some v \<Rightarrow> Path ex_post @ ''?'' @ Join (spec_query_pairs v) ''&''))))
         = ''2dCmGH+T2sNGo+Moql1dDGfiFGg9vti4qxGC70hppQM=''"
    by code_simp
  have "SetAuthorization (\<lambda>s. s) ex_post =
     ''hmac id='' @ [DQ] @ ''k'' @ [DQ] @ '', algorithm='' @ [DQ] @ ''hmac-sha256'' @ [DQ]
       @ '', headers='' @ [DQ] @ ''host'' @ [DQ]
       @ '', signature='' @ [DQ] @ ''2dCmGH+T2sNGo+Moql1dDGfiFGg9vti4qxGC70hppQM='' @ [DQ]"
    unfolding SetAuthorization_format [of "\<lambda>s. s" ex_post] sig names
    by (simp add: ex_post_def ex_client_def)
  moreover have "signToString (\<lambda>s. s) ex_post =
     ''host: '' @ [LF] @ ''POST'' @ [LF] @ ''application/json'' @ [LF, LF]
       @ ''bb6cb5c68df4652941caf652a366f2d8'' @ [LF] @ ''/ip?a=1&b=2''"
    by code_simp
  ultimately show ?thesis by simp
qed

text \<open>
  Claim C2. The canonical header block is built from the header names other than the
  exact name \<open>Accept\<close>: each is lower-cased, the lower-cased names are sorted, and
  every sorted name contributes the line \<open>name: value\<close>, the value being read from
  the header map under the lower-cased name (the empty string when the map has no such
  key). The block opens the signing string.
\<close>

theorem canonical_header_block:
  "headersKVString uni x =
     concat (map (\<lambda>name. name @ '': '' @ map_get (Header x) name [] @ [LF])
       (sort (map (ToLower uni) (filter (\<lambda>k. k \<noteq> ''Accept'') (map fst (Header x))))))
   \<and> signToString uni x =
       headersKVString uni x @ Method x @ [LF] @ ''application/json'' @ [LF, LF]
         @ contextMd5 x @ [LF] @ pathAndParameters x"
proof
  show "headersKVString uni x =
     concat (map (\<lambda>name. name @ '': '' @ map_get (Header x) name [] @ [LF])
       (sort (map (ToLower uni) (filter (\<lambda>k. k \<noteq> ''Accept'') (map fst (Header x))))))"
    by (simp add: headersKVString_eq spec_header_block_def spec_header_names_def
          spec_header_line_fun)
  show "signToString uni x =
       headersKVString uni x @ Method x @ [LF] @ ''application/json'' @ [LF, LF]
         @ contextMd5 x @ [LF] @ pathAndParameters x"
    by (simp add: signToString_def accept_def)
qed

text \<open>
  In the example the header stored as \<open>X-Date\<close> is signed under the name
  \<open>x-date\<close> with an empty value, since the map has no key \<open>x-date\<close>, and the
  header \<open>Accept\<close> is left out.
\<close>

theorem canonical_header_block_witness:
  "headersKVString (\<lambda>s. s) ex_request = ''host: a'' @ [LF] @ ''x-date: '' @ [LF]"
proof -
  have "headersKVString (\<lambda>s. s) ex_request =
     concat (map (\<lambda>name. name @ '': '' @ map_get (Header ex_request) name [] @ [LF])
       (sort (map (ToLower (\<lambda>s. s)) (filter (\<lambda>k. k \<noteq> ''Accept'') (map fst (Header ex_request))))))"
    using canonical_header_block [of "\<lambda>s. s" ex_request] by (rule conjunct1)
  also have "\<dots> = ''host: a'' @ [LF] @ ''x-date: '' @ [LF]"
    by code_simp
  finally show ?thesis .
qed

section \<open>The signature and the transmitted request\<close>

text \<open>
  Claim C3. With signing enabled, the Authorization value should describe the request
  as it is transmitted: its body, its path and its query. The code keeps this for the
  request of \<open>Ping\<close>, whose query is \<open>nil\<close> (\<open>Ping_transmits_signed_path\<close>):
  the question mark that \<open>Send\<close> writes is dropped by the transport. It keeps it for
  a query with parameters (\<open>query_with_parameters_transmits_signed_path\<close>). It breaks
  it in two cases. For a query that is set and holds no parameter, \<open>SetAuthorization\<close>
  signs the path followed by a question mark, and the path alone is sent. For a request
  with a body, the signing string holds the MD5 of the body, and \<open>Send\<close> never
  copies the body into the request: it is sent without one. In both cases the value is
  sent in the \<open>Authorization\<close> header.
\<close>

theorem signature_differs_from_transmitted_request:
  "pathAndParameters (SetQuery [] (R ex_client now ''GET'' ''/ip'')) = ''/ip?''
   \<and> transmitted_target uni (SetQuery [] (R ex_client now ''GET'' ''/ip'')) = ''/ip''
   \<and> req_Header (request_of uni (SetQuery [] (R ex_client now ''GET'' ''/ip''))) ''Authorization''
       = Some (SetAuthorization uni (SetQuery [] (R ex_client now ''GET'' ''/ip'')))
   \<and> Body (SetData ex_Marshal 1 (R ex_client now ''POST'' ''/ip'')) = Some [0x31]
   \<and> contextMd5 (SetData ex_Marshal 1 (R ex_client now ''POST'' ''/ip''))
       = ''c4ca4238a0b923820dcc509a6f75849b''
   \<and> transmitted_body uni (SetData ex_Marshal 1 (R ex_client now ''POST'' ''/ip'')) = None
   \<and> req_Header (request_of uni (SetData ex_Marshal 1 (R ex_client now ''POST'' ''/ip''))) ''Authorization''
       = Some (SetAuthorization uni (SetData ex_Marshal 1 (R ex_client now ''POST'' ''/ip'')))"
proof (intro conjI)
  let ?x = "SetQuery [] (R ex_client now ''GET'' ''/ip'')"
  let ?y = "SetData ex_Marshal 1 (R ex_client now ''POST'' ''/ip'')"
  show "pathAndParameters ?x = ''/ip?''"
    by (simp add: pathAndParameters_def SetQuery_def R_def Encode_def)
  have "req_RequestURI (request_of uni ?x) = ''https://api.example.com/ip?''"
    by (simp add: req_RequestURI_request_of R_def SetQuery_def ex_client_def Encode_def)
  moreover have "RequestURI ''https://api.example.com/ip?'' = ''/ip''"
    by code_simp
  ultimately show "transmitted_target uni ?x = ''/ip''"
    by (simp add: transmitted_target_def)
  show "req_Header (request_of uni ?x) ''Authorization'' = Some (SetAuthorization uni ?x)"
    by (simp add: req_Header_request_of R_def SetQuery_def ex_client_def)
  show b: "Body ?y = Some [0x31]"
    by (simp add: SetData_def ex_Marshal_def bytes_of_def)
  have "EncodeToString (md5_Sum [0x31]) = ''c4ca4238a0b923820dcc509a6f75849b''"
    by code_simp
  then show "contextMd5 ?y = ''c4ca4238a0b923820dcc509a6f75849b''"
    unfolding contextMd5_def b by simp
  show "transmitted_body uni ?y = None"
    by (rule transmitted_body_None)
  show "req_Header (request_of uni ?y) ''Authorization'' = Some (SetAuthorization uni ?y)"
    by (simp add: req_Header_request_of R_def SetData_def ex_client_def)
qed




section \<open>The content MD5\<close>

text \<open>
  Claim C5, as amended. The content MD5 is the empty string when the body is \<open>nil\<close>.
  When the body is not \<open>nil\<close> it is the hexadecimal MD5 digest of the body bytes: 32
  characters among the digits and the lower-case letters \<open>a\<close> to \<open>f\<close>, also for
  a body of length zero.
\<close>

theorem contextMd5_amended:
  "(Body x = None \<longrightarrow> contextMd5 x = [])
   \<and> (\<forall>b. Body x = Some b \<longrightarrow>
         contextMd5 x = EncodeToString (md5_Sum b)
         \<and> length (contextMd5 x) = 32
         \<and> set (contextMd5 x) \<subseteq> set ''0123456789abcdef'')"
proof (intro conjI allI impI)
  assume "Body x = None"
  then show "contextMd5 x = []"
    by (simp add: contextMd5_def)
next
  fix b assume b: "Body x = Some b"
  then show "contextMd5 x = EncodeToString (md5_Sum b)"
    by (simp add: contextMd5_def)
  from b show "length (contextMd5 x) = 32"
    by (simp add: contextMd5_def length_EncodeToString length_md5_Sum)
  from b show "set (contextMd5 x) \<subseteq> set ''0123456789abcdef''"
    using set_EncodeToString [of "md5_Sum b"] by (simp add: contextMd5_def)
qed

theorem contextMd5_amended_witness:
  "contextMd5 ex_request = []
   \<and> contextMd5 (ex_request\<lparr>Body := Some (bytes_of (''{'' @ [DQ] @ ''a'' @ [DQ] @ '':1}''))\<rparr>)
       = ''bb6cb5c68df4652941caf652a366f2d8''"
proof -
  let ?b = "bytes_of (''{'' @ [DQ] @ ''a'' @ [DQ] @ '':1}'')"
  have "Body ex_request = None"
    by (simp add: ex_request_def)
  then have 1: "contextMd5 ex_request = []"
    using contextMd5_amended [of ex_request] by simp
  have "Body (ex_request\<lparr>Body := Some ?b\<rparr>) = Some ?b"
    by simp
  then have "contextMd5 (ex_request\<lparr>Body := Some ?b\<rparr>) = EncodeToString (md5_Sum ?b)"
    using contextMd5_amended [of "ex_request\<lparr>Body := Some ?b\<rparr>"] by blast
  also have "\<dots> = ''bb6cb5c68df4652941caf652a366f2d8''"
    by code_simp
  finally show ?thesis
    using 1 by simp
qed

text \<open>
  The claim as first stated asks for the empty string for an empty body. It fails for a
  body that is set and has no bytes (\<open>[]byte{}\<close>): the test \<open>x.Body != nil\<close>
  passes and the digest of the empty byte sequence is signed.
\<close>

theorem contextMd5_empty_body_counterexample:
  "contextMd5 (ex_request\<lparr>Body := Some []\<rparr>) = ''d41d8cd98f00b204e9800998ecf8427e''
   \<and> contextMd5 (ex_request\<lparr>Body := Some []\<rparr>) \<noteq> []"
proof -
  have "contextMd5 (ex_request\<lparr>Body := Some []\<rparr>) = ''d41d8cd98f00b204e9800998ecf8427e''"
    by code_simp
  then show ?thesis by simp
qed

section \<open>Send\<close>

text \<open>
  Claim C6. \<open>Send\<close> hands the transport a request whose headers are those of the
  request descriptor, with \<open>Authorization\<close> set to the value that
  \<open>SetAuthorization\<close> computes from the descriptor as it is at that moment exactly
  when the key and the secret are both non-empty. When either is empty the headers are
  those of the descriptor alone, so a descriptor without an \<open>Authorization\<close> header
  is sent without one; in both cases the request goes to the transport.
\<close>

theorem Send_sets_Authorization:
  "Send Do uni x = Do (request_of uni x)
   \<and> req_Header (request_of uni x) =
       (if Key (Client x) \<noteq> [] \<and> Secret (Client x) \<noteq> []
        then (req_Header (SetHeaders (Header x) new_Request))(''Authorization'' \<mapsto> SetAuthorization uni x)
        else req_Header (SetHeaders (Header x) new_Request))
   \<and> (''Authorization'' \<notin> fst ` set (Header x) \<longrightarrow>
        (req_Header (request_of uni x) ''Authorization'' = Some (SetAuthorization uni x)
           \<longleftrightarrow> Key (Client x) \<noteq> [] \<and> Secret (Client x) \<noteq> [])
        \<and> (Key (Client x) = [] \<or> Secret (Client x) = []
             \<longrightarrow> req_Header (request_of uni x) ''Authorization'' = None))"
proof (intro conjI impI)
  show "Send Do uni x = Do (request_of uni x)"
    by (simp add: Send_def)
  show "req_Header (request_of uni x) =
       (if Key (Client x) \<noteq> [] \<and> Secret (Client x) \<noteq> []
        then (req_Header (SetHeaders (Header x) new_Request))(''Authorization'' \<mapsto> SetAuthorization uni x)
        else req_Header (SetHeaders (Header x) new_Request))"
    by (rule req_Header_request_of)
next
  assume "''Authorization'' \<notin> fst ` set (Header x)"
  then have base: "req_Header (SetHeaders (Header x) new_Request) ''Authorization'' = None"
    by (simp add: req_Header_SetHeaders_other new_Request_def)
  show "req_Header (request_of uni x) ''Authorization'' = Some (SetAuthorization uni x)
           \<longleftrightarrow> Key (Client x) \<noteq> [] \<and> Secret (Client x) \<noteq> []"
    using base by (simp add: req_Header_request_of)
  assume "Key (Client x) = [] \<or> Secret (Client x) = []"
  then show "req_Header (request_of uni x) ''Authorization'' = None"
    using base by (auto simp: req_Header_request_of)
qed

theorem Send_sets_Authorization_witness:
  "req_Header (request_of (\<lambda>s. s) ex_request) ''Authorization''
     = Some (SetAuthorization (\<lambda>s. s) ex_request)
   \<and> req_Header (request_of (\<lambda>s. s) (ex_request\<lparr>Client := ex_client\<lparr>Secret := []\<rparr>\<rparr>)) ''Authorization''
     = None"
proof -
  let ?Do = "\<lambda>req :: Request. ((), None :: unit option)"
  let ?y = "ex_request\<lparr>Client := ex_client\<lparr>Secret := []\<rparr>\<rparr>"
  have h: "''Authorization'' \<notin> fst ` set (Header ex_request)"
    by (simp add: ex_request_def)
  have k: "Key (Client ex_request) \<noteq> [] \<and> Secret (Client ex_request) \<noteq> []"
    by (simp add: ex_request_def ex_client_def)
  have 1: "req_Header (request_of (\<lambda>s. s) ex_request) ''Authorization''
     = Some (SetAuthorization (\<lambda>s. s) ex_request)"
    using Send_sets_Authorization [of ?Do "\<lambda>s. s" ex_request] h k by blast
  have h': "''Authorization'' \<notin> fst ` set (Header ?y)"
    by (simp add: ex_request_def)
  have k': "Key (Client ?y) = [] \<or> Secret (Client ?y) = []"
    by simp
  have 2: "req_Header (request_of (\<lambda>s. s) ?y) ''Authorization'' = None"
    using Send_sets_Authorization [of ?Do "\<lambda>s. s" ?y] h' k' by blast
  from 1 2 show ?thesis ..
qed

section \<open>SetData\<close>

text \<open>
  Claim C7. \<open>SetData\<close> stores the encoder's bytes as the body. It returns the request
  and no error: when the encoder fails, returning no bytes and an error, the error is
  dropped and the request has no body, so it is signed and sent as a request whose body
  was never set. No other field changes.
\<close>

theorem SetData_swallows_error:
  "(\<forall>buf. Marshal v = (Some buf, None) \<longrightarrow> Body (SetData Marshal v x) = Some buf)
   \<and> (\<forall>err. Marshal v = (None, Some err) \<longrightarrow>
         Body (SetData Marshal v x) = None
         \<and> contextMd5 (SetData Marshal v x) = []
         \<and> SetAuthorization uni (SetData Marshal v x) = SetAuthorization uni (x\<lparr>Body := None\<rparr>)
         \<and> request_of uni (SetData Marshal v x) = request_of uni (x\<lparr>Body := None\<rparr>))
   \<and> Client (SetData Marshal v x) = Client x \<and> Method (SetData Marshal v x) = Method x
   \<and> Path (SetData Marshal v x) = Path x \<and> Header (SetData Marshal v x) = Header x
   \<and> Query (SetData Marshal v x) = Query x"
  by (simp add: SetData_def contextMd5_def)

theorem SetData_swallows_error_witness:
  "Body (SetData ex_Marshal 1 ex_request) = Some [0x31]
   \<and> Body (SetData ex_Marshal 0 ex_request) = None
   \<and> contextMd5 (SetData ex_Marshal 0 ex_request) = []
   \<and> SetAuthorization (\<lambda>s. s) (SetData ex_Marshal 0 ex_request)
       = SetAuthorization (\<lambda>s. s) (ex_request\<lparr>Body := None\<rparr>)"
proof -
  have ok: "ex_Marshal 1 = (Some [0x31], None)"
    by (simp add: ex_Marshal_def bytes_of_def)
  have bad: "ex_Marshal 0 = (None, Some ''unsupported value'')"
    by (simp add: ex_Marshal_def)
  show ?thesis
    using SetData_swallows_error [of ex_Marshal 1 ex_request "\<lambda>s. s"]
      SetData_swallows_error [of ex_Marshal 0 ex_request "\<lambda>s. s"] ok bad
    by simp
qed

text \<open>
  Claim C9. A call of \<open>SetData\<close> whose encoding fails overwrites the body with the
  failed result, \<open>nil\<close>: a body stored by an earlier, successful call is discarded.
\<close>

theorem SetData_failure_discards_body:
  "Marshal v' = (None, Some err) \<Longrightarrow>
     Body (SetData Marshal v' x) = None
     \<and> (\<forall>buf. Marshal v = (Some buf, None) \<longrightarrow>
          Body (SetData Marshal v x) = Some buf
          \<and> Body (SetData Marshal v' (SetData Marshal v x)) = None)"
  by (simp add: SetData_def)

theorem SetData_failure_discards_body_witness:
  "Body (SetData ex_Marshal 1 ex_request) = Some [0x31]
   \<and> Body (SetData ex_Marshal 0 (SetData ex_Marshal 1 ex_request)) = None"
proof -
  have ok: "ex_Marshal 1 = (Some [0x31], None)"
    by (simp add: ex_Marshal_def bytes_of_def)
  have bad: "ex_Marshal 0 = (None, Some ''unsupported value'')"
    by (simp add: ex_Marshal_def)
  show ?thesis
    using SetData_failure_discards_body [where Marshal = ex_Marshal and v' = 0 and v = 1 and x = ex_request] bad ok
    by simp
qed

section \<open>Determinism\<close>

text \<open>
  Claim C8. Two requests with the same client identity, method, path, query, headers and
  body get the same Authorization value, whatever the order in which the loops visit the
  header map and the query map. The computation has no failing branch: for every
  request, an empty secret included, the signature is a base64 string of 44 characters.
\<close>

theorem SetAuthorization_deterministic:
  "same_request x y \<Longrightarrow>
     SetAuthorization uni x = SetAuthorization uni y
     \<and> length (signature uni x) = 44"
proof
  assume same: "same_request x y"
  then have hdr: "same_map (Header x) (Header y)"
    and qry: "same_query (Query x) (Query y)"
    and flds: "Client x = Client y" "Method x = Method y" "Path x = Path y" "Body x = Body y"
    by (simp_all add: same_request_def)
  have names: "headers uni x = headers uni y"
    by (simp add: headers_eq same_map_header_names [OF hdr])
  have block: "headersKVString uni x = headersKVString uni y"
    by (simp add: headersKVString_eq same_map_header_block [OF hdr])
  have path: "pathAndParameters x = pathAndParameters y"
    using flds(3) qry by (rule same_query_pathAndParameters)
  have md5: "contextMd5 x = contextMd5 y"
    by (simp add: contextMd5_def flds)
  have "signToString uni x = signToString uni y"
    by (simp add: signToString_def block path md5 flds)
  then have "signature uni x = signature uni y"
    by (simp add: signature_def flds)
  then show "SetAuthorization uni x = SetAuthorization uni y"
    by (simp add: SetAuthorization_def names flds)
next
  show "length (signature uni x) = 44"
    by (rule length_signature)
qed

theorem SetAuthorization_deterministic_witness:
  "same_request ex_reordered ex_ordered
   \<and> Secret (Client ex_reordered) = []
   \<and> SetAuthorization (\<lambda>s. s) ex_reordered = SetAuthorization (\<lambda>s. s) ex_ordered
   \<and> length (signature (\<lambda>s. s) ex_reordered) = 44"
proof -
  have same: "same_request ex_reordered ex_ordered"
    by (simp add: same_request_def same_query_def same_map_def wf_map_def
          ex_reordered_def ex_ordered_def) auto
  have "Secret (Client ex_reordered) = []"
    by (simp add: ex_reordered_def)
  with same SetAuthorization_deterministic [OF same, of "\<lambda>s. s"] show ?thesis
    by simp
qed

section \<open>The advertised and the signed headers\<close>

text \<open>
  Claim C10. The \<open>headers\<close> field of the Authorization value and the canonical
  header block of the signing string are written from one list, the sorted lower-cased
  names: the field is that list joined by single spaces, and the block has one line per
  element of that list, in the same order.
\<close>

theorem advertised_headers_are_signed_headers:
  "headersKVString uni x =
     concat (map (\<lambda>name. name @ '': '' @ map_get (Header x) name [] @ [LF]) (headers uni x))
   \<and> signToString uni x =
       headersKVString uni x @ Method x @ [LF] @ ''application/json'' @ [LF, LF]
         @ contextMd5 x @ [LF] @ pathAndParameters x
   \<and> signature uni x =
       StdEncoding_EncodeToString
         (hmac_sha256 (bytes_of (Secret (Client x))) (bytes_of (signToString uni x)))
   \<and> SetAuthorization uni x =
       ''hmac id='' @ [DQ] @ Key (Client x) @ [DQ]
         @ '', algorithm='' @ [DQ] @ ''hmac-sha256'' @ [DQ]
         @ '', headers='' @ [DQ] @ Join (headers uni x) '' '' @ [DQ]
         @ '', signature='' @ [DQ] @ signature uni x @ [DQ]
   \<and> sorted (headers uni x)
   \<and> mset (headers uni x)
       = mset (map (ToLower uni) (filter (\<lambda>k. k \<noteq> ''Accept'') (map fst (Header x))))"
proof (intro conjI)
  show "headersKVString uni x =
     concat (map (\<lambda>name. name @ '': '' @ map_get (Header x) name [] @ [LF]) (headers uni x))"
    by (simp add: headersKVString_def write_headers_eq spec_header_line_fun)
  show "signToString uni x =
       headersKVString uni x @ Method x @ [LF] @ ''application/json'' @ [LF, LF]
         @ contextMd5 x @ [LF] @ pathAndParameters x"
    by (simp add: signToString_def accept_def)
  show "signature uni x =
       StdEncoding_EncodeToString
         (hmac_sha256 (bytes_of (Secret (Client x))) (bytes_of (signToString uni x)))"
    by (simp add: signature_def)
  show "SetAuthorization uni x =
       ''hmac id='' @ [DQ] @ Key (Client x) @ [DQ]
         @ '', algorithm='' @ [DQ] @ ''hmac-sha256'' @ [DQ]
         @ '', headers='' @ [DQ] @ Join (headers uni x) '' '' @ [DQ]
         @ '', signature='' @ [DQ] @ signature uni x @ [DQ]"
    by (simp add: SetAuthorization_def)
  show "sorted (headers uni x)"
    by (simp add: headers_def sort_Strings_def)
  show "mset (headers uni x)
       = mset (map (ToLower uni) (filter (\<lambda>k. k \<noteq> ''Accept'') (map fst (Header x))))"
    by (simp add: headers_eq spec_header_names_def)
qed

theorem advertised_headers_are_signed_headers_witness:
  "headers (\<lambda>s. s) ex_request = [''host'', ''x-date'']
   \<and> Join (headers (\<lambda>s. s) ex_request) '' '' = ''host x-date''
   \<and> headersKVString (\<lambda>s. s) ex_request = ''host: a'' @ [LF] @ ''x-date: '' @ [LF]"
proof -
  have names: "headers (\<lambda>s. s) ex_request = [''host'', ''x-date'']"
    by code_simp
  have "headersKVString (\<lambda>s. s) ex_request =
     concat (map (\<lambda>name. name @ '': '' @ map_get (Header ex_request) name [] @ [LF])
       (headers (\<lambda>s. s) ex_request))"
    using advertised_headers_are_signed_headers [of "\<lambda>s. s" ex_request] by (rule conjunct1)
  also have "\<dots> = ''host: a'' @ [LF] @ ''x-date: '' @ [LF]"
    unfolding names by code_simp
  finally show ?thesis
    by (simp add: names)
qed

end
